theory Spec2Isabelle
  imports Complex_Main "HOL-Library.Multiset"
begin

section \<open>Values, errors and the pandas/numpy operations the module calls\<close>

text \<open>
  The module \<^verbatim>\<open>die_game_analyzer.py\<close> defines three classes, \<^verbatim>\<open>Die\<close>, \<^verbatim>\<open>Game\<close> and
  \<^verbatim>\<open>Analyzer\<close>. Objects live in a heap and are named by addresses; every method takes
  the heap and returns its result together with the heap it leaves behind, also when it
  raises. Python exceptions are values: \<open>Inl\<close> of the exception class with its message.
  Weights are Python floats; they are modelled by real numbers (no rounding), and the one
  place where the source leaves the reals, the division by a zero sum, is modelled by the
  IEEE special values.
\<close>

datatype error = TypeError string | ValueError string | IndexError string

text \<open>An argument of a dynamically typed call: a value of the expected type, or anything else.\<close>

datatype 'a arg = Val 'a | WrongType

type_synonym addr = nat

text \<open>
  A pandas \<^verbatim>\<open>Series\<close> is a list of (label, value) pairs in row order; a \<^verbatim>\<open>DataFrame\<close> has
  row labels, column labels and the cells row by row.
\<close>

type_synonym ('i, 'v) Series = "('i \<times> 'v) list"

record ('i, 'c, 'v) DataFrame =
  index :: "'i list"
  columns :: "'c list"
  data :: "'v list list"

definition shape :: "('i, 'c, 'v) DataFrame \<Rightarrow> nat \<times> nat" where
  "shape fr = (length (index fr), length (columns fr))"

text \<open>\<^verbatim>\<open>pd.DataFrame(dict)\<close> for a dict of equally long lists keyed \<open>0, 1, ...\<close> in insertion order.\<close>

definition DataFrame_of_dict :: "(nat \<times> 'v list) list \<Rightarrow> (nat, nat, 'v) DataFrame" where
  "DataFrame_of_dict rolls =
     (let nrows = (case rolls of [] \<Rightarrow> 0 | kc # _ \<Rightarrow> length (snd kc));
          idx = [0..<nrows]
      in \<lparr>index = idx, columns = map fst rolls,
          data = map (\<lambda>r. map (\<lambda>kc. snd kc ! r) rolls) idx\<rparr>)"

text \<open>
  \<^verbatim>\<open>pd.DataFrame(list_of_series)\<close> for series that all carry the same labels: one row per
  series, the labels become the columns. An empty list gives a frame without columns.
\<close>

definition DataFrame_of_series :: "('c, 'v) Series list \<Rightarrow> (nat, 'c, 'v) DataFrame" where
  "DataFrame_of_series ss =
     \<lparr>index = [0..<length ss],
      columns = (case ss of [] \<Rightarrow> [] | s # _ \<Rightarrow> map fst s),
      data = map (map snd) ss\<rparr>"

text \<open>\<^verbatim>\<open>Series.to_frame(name)\<close>: a frame with the single column \<open>name\<close>.\<close>

definition to_frame :: "('i, 'v) Series \<Rightarrow> string \<Rightarrow> ('i, string, 'v) DataFrame" where
  "to_frame s name = \<lparr>index = map fst s, columns = [name], data = map (\<lambda>kv. [snd kv]) s\<rparr>"

text \<open>\<^verbatim>\<open>DataFrame.stack()\<close>: the cells in row-major order, labelled (row label, column label).\<close>

definition stack :: "('i, 'c, 'v) DataFrame \<Rightarrow> ('i \<times> 'c, 'v) Series" where
  "stack fr =
     concat (map (\<lambda>ir. map (\<lambda>cv. ((fst ir, fst cv), snd cv)) (zip (columns fr) (snd ir)))
                 (zip (index fr) (data fr)))"

text \<open>\<^verbatim>\<open>DataFrame.apply(f, axis=1)\<close>: \<open>f\<close> on every row, labelled by the row labels.\<close>

definition apply_rows :: "('v list \<Rightarrow> 'b) \<Rightarrow> ('i, 'c, 'v) DataFrame \<Rightarrow> ('i, 'b) Series" where
  "apply_rows f fr = zip (index fr) (map f (data fr))"

text \<open>\<^verbatim>\<open>DataFrame.iterrows()\<close>: the pairs (row label, row).\<close>

definition iterrows :: "('i, 'c, 'v) DataFrame \<Rightarrow> ('i \<times> 'v list) list" where
  "iterrows fr = zip (index fr) (data fr)"

text \<open>\<^verbatim>\<open>pd.unique\<close>: the distinct values in order of first appearance (a hash-table pass).\<close>

fun unique_from :: "'a list \<Rightarrow> 'a list \<Rightarrow> 'a list" where
  "unique_from seen [] = []"
| "unique_from seen (x # xs) =
     (if x \<in> set seen then unique_from seen xs else x # unique_from (x # seen) xs)"

definition unique :: "'a list \<Rightarrow> 'a list" where
  "unique xs = unique_from [] xs"

text \<open>
  \<^verbatim>\<open>Series.value_counts()\<close> with its defaults (\<open>sort=True\<close>, \<open>ascending=False\<close>): one entry
  per distinct value with the number of its occurrences, ordered by descending count.
  The order among equal counts differs between pandas versions; here it is the order of
  first appearance, and nothing below depends on it.
\<close>

definition value_counts :: "'k list \<Rightarrow> ('k, nat) Series" where
  "value_counts vs =
     sort_key (\<lambda>kc. - int (snd kc)) (map (\<lambda>k. (k, count_list vs k)) (unique vs))"

text \<open>\<^verbatim>\<open>Series.reindex(labels, fill_value=fill)\<close>.\<close>

definition reindex :: "('k, 'v) Series \<Rightarrow> 'k list \<Rightarrow> 'v \<Rightarrow> ('k, 'v) Series" where
  "reindex s labels fill =
     map (\<lambda>l. (l, case map_of s l of Some v \<Rightarrow> v | None \<Rightarrow> fill)) labels"

subsection \<open>numpy: division of floats and \<^verbatim>\<open>np.random.choice\<close>\<close>

text \<open>
  The floats of Python and numpy are IEEE binary64 numbers: a finite value, an infinity or
  \<open>nan\<close>. An operation whose exact result reaches \<open>2\<^sup>1\<^sup>0\<^sup>2\<^sup>4 - 2\<^sup>9\<^sup>7\<^sup>0\<close> in magnitude, the midpoint
  beyond the largest float, overflows to an infinity. Below that the result is taken exact:
  the rounding of results inside the range is not modelled.
\<close>

datatype npfloat = Fin real | PInf | NInf | NaN

definition float_limit :: real where
  "float_limit = 2 ^ 1024 - 2 ^ 970"

definition py_float :: "real \<Rightarrow> npfloat" where
  "py_float r = (if float_limit \<le> r then PInf else if r \<le> - float_limit then NInf else Fin r)"

text \<open>
  numpy divides by a zero float without raising: the quotient is \<open>nan\<close> for \<open>0/0\<close> and an
  infinity otherwise; a finite value divided by an infinity is zero. The result of
  \<^verbatim>\<open>np.array(weights) / sum(weights)\<close> is therefore a list of such values.
\<close>

fun np_div :: "real \<Rightarrow> npfloat \<Rightarrow> npfloat" where
  "np_div x (Fin y) =
     (if y \<noteq> 0 then py_float (x / y) else if x = 0 then NaN else if 0 < x then PInf else NInf)"
| "np_div x NaN = NaN"
| "np_div x _ = Fin 0"

fun np_add :: "npfloat \<Rightarrow> npfloat \<Rightarrow> npfloat" where
  "np_add (Fin a) (Fin b) = py_float (a + b)"
| "np_add NaN _ = NaN"
| "np_add _ NaN = NaN"
| "np_add PInf NInf = NaN"
| "np_add NInf PInf = NaN"
| "np_add PInf _ = PInf"
| "np_add _ PInf = PInf"
| "np_add NInf _ = NInf"
| "np_add _ NInf = NInf"

definition np_sum :: "npfloat list \<Rightarrow> npfloat" where
  "np_sum p = foldl np_add (Fin 0) p"

text \<open>Python's \<^verbatim>\<open>sum\<close> of a list of finite floats: from 0, one addition per element.\<close>

definition py_sum :: "real list \<Rightarrow> npfloat" where
  "py_sum ws = foldl np_add (Fin 0) (map Fin ws)"

fun np_negative :: "npfloat \<Rightarrow> bool" where
  "np_negative (Fin r) = (r < 0)"
| "np_negative NInf = True"
| "np_negative _ = False"

definition atol :: real where
  "atol = 1 / 2 ^ 26"

fun np_not_one :: "npfloat \<Rightarrow> bool" where
  "np_not_one (Fin r) = (atol < \<bar>r - 1\<bar>)"
| "np_not_one NaN = False"
| "np_not_one _ = True"

fun fin :: "npfloat \<Rightarrow> real" where
  "fin (Fin r) = r"
| "fin _ = 0"

text \<open>
  The random source: the stream of uniform samples of \<open>[0, 1)\<close> that the global generator
  will deliver. Drawing \<open>n\<close> samples returns the first \<open>n\<close> and advances the stream.
\<close>

type_synonym rng = "nat \<Rightarrow> real"

definition random_sample :: "nat \<Rightarrow> rng \<Rightarrow> real list \<times> rng" where
  "random_sample n g = (map g [0..<n], (\<lambda>i. g (i + n)))"

fun cumsum_from :: "real \<Rightarrow> real list \<Rightarrow> real list" where
  "cumsum_from acc [] = []"
| "cumsum_from acc (x # xs) = (acc + x) # cumsum_from (acc + x) xs"

definition cumsum :: "real list \<Rightarrow> real list" where
  "cumsum xs = cumsum_from 0 xs"

text \<open>\<^verbatim>\<open>cdf.searchsorted(u, side='right')\<close> on an ascending array: the first position whose
  entry exceeds \<open>u\<close>.\<close>

definition searchsorted_right :: "real list \<Rightarrow> real \<Rightarrow> nat" where
  "searchsorted_right cdf u = length (takeWhile (\<lambda>c. c \<le> u) cdf)"

text \<open>
  \<^verbatim>\<open>np.random.choice(a, size=sz, p=p)\<close> (sampling with replacement): the checks of \<open>p\<close> in
  numpy's order, then inversion of the cumulative distribution on \<open>sz\<close> uniform samples.
  A failed check raises before any sample is drawn. For samples of \<open>[0, 1)\<close>, which are the
  only ones the generator delivers, every position found lies inside \<open>a\<close>.
\<close>

definition choice :: "'a list \<Rightarrow> nat \<Rightarrow> npfloat list \<Rightarrow> rng \<Rightarrow> (error + 'a list) \<times> rng" where
  "choice a sz p g =
     (if a = [] \<and> sz \<noteq> 0 then
        (Inl (ValueError '''a' cannot be empty unless no samples are taken''), g)
      else if length p \<noteq> length a then
        (Inl (ValueError '''a' and 'p' must have same size''), g)
      else if np_sum p = NaN then
        (Inl (ValueError ''probabilities contain NaN''), g)
      else if \<exists>x \<in> set p. np_negative x then
        (Inl (ValueError ''probabilities are not non-negative''), g)
      else if np_not_one (np_sum p) then
        (Inl (ValueError ''probabilities do not sum to 1''), g)
      else
        (let cdf = cumsum (map fin p);
             cdf = map (\<lambda>c. c / last cdf) cdf;
             (uniform_samples, g') = random_sample sz g;
             idx = map (searchsorted_right cdf) uniform_samples
         in (Inr (map (\<lambda>i. a ! i) idx), g')))"

section \<open>The heap\<close>

record 'a Die =
  Die_df :: "('a, real) Series"

record Game =
  Game_dice :: "addr list"
  Game_results :: "addr option"

record Analyzer =
  game :: addr
  results :: addr

text \<open>
  Dice, games and results frames are objects; \<open>n_dies\<close>, \<open>n_games\<close> and \<open>n_frames\<close> are the
  next free addresses. An analyzer is never changed after its construction and is a value.
\<close>

record 'a heap =
  dies :: "addr \<Rightarrow> 'a Die"
  n_dies :: nat
  games :: "addr \<Rightarrow> Game"
  n_games :: nat
  frames :: "addr \<Rightarrow> (nat, nat, 'a) DataFrame"
  n_frames :: nat

section \<open>class Die\<close>

definition Die_init :: "'a heap \<Rightarrow> 'a list arg \<Rightarrow> (error + addr) \<times> 'a heap" where
  "Die_init h faces =
     (case faces of
        WrongType \<Rightarrow> (Inl (TypeError ''Faces must be provided as a NumPy array.''), h)
      | Val fs \<Rightarrow>
          if length fs \<noteq> card (set fs) then
            (Inl (ValueError ''Faces must contain unique values.''), h)
          else
            (Inr (n_dies h),
             h\<lparr>dies := (dies h)(n_dies h := \<lparr>Die_df = map (\<lambda>f. (f, 1)) fs\<rparr>),
               n_dies := Suc (n_dies h)\<rparr>))"

text \<open>
  \<^verbatim>\<open>df.at[face, 'weight'] = w\<close> on a frame whose labels are unique (which \<open>Die_init\<close>
  guarantees): the row labelled \<open>face\<close> gets the weight \<open>w\<close>.
\<close>

definition set_at :: "('a, real) Series \<Rightarrow> 'a \<Rightarrow> real \<Rightarrow> ('a, real) Series" where
  "set_at df face w = map (\<lambda>fw. if fst fw = face then (fst fw, w) else fw) df"

text \<open>
  The weight argument is \<open>Val w\<close> when \<^verbatim>\<open>float(new_weight)\<close> yields the finite float \<open>w\<close> and
  \<open>WrongType\<close> when the conversion raises. The message of the \<open>IndexError\<close> is given without
  the face.
\<close>

definition change_weight :: "'a heap \<Rightarrow> addr \<Rightarrow> 'a \<Rightarrow> real arg \<Rightarrow> (error + unit) \<times> 'a heap" where
  "change_weight h self face new_weight =
     (if face \<notin> set (map fst (Die_df (dies h self))) then
        (Inl (IndexError ''Face not found in die faces.''), h)
      else case new_weight of
        WrongType \<Rightarrow> (Inl (TypeError ''New weight must be numeric or castable to float.''), h)
      | Val w \<Rightarrow>
          if w < 0 then (Inl (ValueError ''Weight must be non-negative.''), h)
          else (Inr (),
                h\<lparr>dies := (dies h)(self := (dies h self)\<lparr>Die_df := set_at (Die_df (dies h self)) face w\<rparr>)\<rparr>))"

text \<open>
  The probabilities that \<open>roll\<close> hands to the sampler,
  \<^verbatim>\<open>np.array(weights) / sum(weights)\<close>: each weight divided by the float sum of the weights,
  which is an infinity when the sum overflows.
\<close>

definition roll_p :: "'a Die \<Rightarrow> npfloat list" where
  "roll_p d =
     (let weights = map snd (Die_df d) in map (\<lambda>w. np_div w (py_sum weights)) weights)"

definition roll ::
  "'a heap \<Rightarrow> addr \<Rightarrow> int arg \<Rightarrow> rng \<Rightarrow> (error + 'a list) \<times> 'a heap \<times> rng" where
  "roll h self num_rolls g =
     (case num_rolls of
        WrongType \<Rightarrow> (Inl (ValueError ''Number of rolls must be a positive integer.''), h, g)
      | Val n \<Rightarrow>
          if n \<le> 0 then
            (Inl (ValueError ''Number of rolls must be a positive integer.''), h, g)
          else
            (let faces = map fst (Die_df (dies h self));
                 (result, g') = choice faces (nat n) (roll_p (dies h self)) g
             in (result, h, g')))"

definition Die_show :: "'a heap \<Rightarrow> addr \<Rightarrow> ('a, real) Series" where
  "Die_show h self = Die_df (dies h self)"

section \<open>class Game\<close>

definition Game_init :: "'a heap \<Rightarrow> addr list arg \<Rightarrow> (error + addr) \<times> 'a heap" where
  "Game_init h dice_list =
     (case dice_list of
        WrongType \<Rightarrow> (Inl (ValueError ''Must provide a non-empty list of dice.''), h)
      | Val ds \<Rightarrow>
          if length ds = 0 then
            (Inl (ValueError ''Must provide a non-empty list of dice.''), h)
          else
            (Inr (n_games h),
             h\<lparr>games := (games h)(n_games h := \<lparr>Game_dice = ds, Game_results = None\<rparr>),
               n_games := Suc (n_games h)\<rparr>))"

text \<open>
  The loop \<^verbatim>\<open>for i, die in enumerate(self.__dice): rolls[i] = die.roll(num_rolls)\<close>. The
  dict \<open>rolls\<close> is a local variable; an exception of \<open>roll\<close> leaves the loop with the heap
  and the random source as they are at that moment.
\<close>

fun play_loop ::
  "'a heap \<Rightarrow> (nat \<times> addr) list \<Rightarrow> int \<Rightarrow> rng \<Rightarrow> (nat \<times> 'a list) list \<Rightarrow>
     (error + (nat \<times> 'a list) list) \<times> 'a heap \<times> rng" where
  "play_loop h [] n g rolls = (Inr rolls, h, g)"
| "play_loop h (idie # rest) n g rolls =
     (case roll h (snd idie) (Val n) g of
        (Inl e, h', g') \<Rightarrow> (Inl e, h', g')
      | (Inr out, h', g') \<Rightarrow> play_loop h' rest n g' (rolls @ [(fst idie, out)]))"

definition enumerate0 :: "'b list \<Rightarrow> (nat \<times> 'b) list" where
  "enumerate0 xs = zip [0..<length xs] xs"

text \<open>
  \<open>play\<close> binds \<^verbatim>\<open>self.__results\<close> to a new frame; the frame held before is not touched.
  (The name given to the index, \<^verbatim>\<open>"Roll Number"\<close>, is not part of the model.)
\<close>

definition play :: "'a heap \<Rightarrow> addr \<Rightarrow> int arg \<Rightarrow> rng \<Rightarrow> (error + unit) \<times> 'a heap \<times> rng" where
  "play h self num_rolls g =
     (case num_rolls of
        WrongType \<Rightarrow> (Inl (ValueError ''Number of rolls must be a positive integer.''), h, g)
      | Val n \<Rightarrow>
          if n \<le> 0 then
            (Inl (ValueError ''Number of rolls must be a positive integer.''), h, g)
          else
            (case play_loop h (enumerate0 (Game_dice (games h self))) n g [] of
               (Inl e, h', g') \<Rightarrow> (Inl e, h', g')
             | (Inr rolls, h', g') \<Rightarrow>
                 (Inr (),
                  h'\<lparr>frames := (frames h')(n_frames h' := DataFrame_of_dict rolls),
                     n_frames := Suc (n_frames h'),
                     games := (games h')(self := (games h' self)\<lparr>Game_results := Some (n_frames h')\<rparr>)\<rparr>,
                  g')))"

text \<open>
  What \<open>show\<close> returns: for \<open>'wide'\<close> a new frame object, the copy; for \<open>'narrow'\<close> the
  long frame built from \<open>stack\<close>, which no object of the module keeps.
\<close>

datatype 'a shown =
  Wide (wide_addr: addr)
| Narrow (narrow_frame: "(nat \<times> nat, string, 'a) DataFrame")

definition Game_show :: "'a heap \<Rightarrow> addr \<Rightarrow> string \<Rightarrow> (error + 'a shown) \<times> 'a heap" where
  "Game_show h self form =
     (case Game_results (games h self) of
        None \<Rightarrow> (Inl (ValueError ''No game has been played yet.''), h)
      | Some r \<Rightarrow>
          if form = ''wide'' then
            (Inr (Wide (n_frames h)),
             h\<lparr>frames := (frames h)(n_frames h := frames h r), n_frames := Suc (n_frames h)\<rparr>)
          else if form = ''narrow'' then
            (let narrow_df = stack (frames h r)
             in (Inr (Narrow (to_frame narrow_df ''Outcome'')), h))
          else (Inl (ValueError ''Invalid form. Use 'wide' or 'narrow'.''), h))"

section \<open>class Analyzer\<close>

definition Analyzer_init :: "'a heap \<Rightarrow> addr arg \<Rightarrow> (error + Analyzer) \<times> 'a heap" where
  "Analyzer_init h game_arg =
     (case game_arg of
        WrongType \<Rightarrow> (Inl (ValueError ''Input must be a Game object.''), h)
      | Val gm \<Rightarrow>
          (case Game_show h gm ''wide'' of
             (Inl e, h') \<Rightarrow> (Inl e, h')
           | (Inr sh, h') \<Rightarrow> (Inr \<lparr>game = gm, results = wide_addr sh\<rparr>, h')))"

text \<open>The frame that \<^verbatim>\<open>self.results\<close> refers to.\<close>

definition snapshot :: "'a heap \<Rightarrow> Analyzer \<Rightarrow> (nat, nat, 'a) DataFrame" where
  "snapshot h self = frames h (results self)"

text \<open>\<^verbatim>\<open>int(jackpots.sum())\<close> adds the booleans, \<open>True\<close> counting 1.\<close>

definition jackpot :: "'a heap \<Rightarrow> Analyzer \<Rightarrow> int" where
  "jackpot h self =
     (let jackpots = apply_rows (\<lambda>row. card (set row) = 1) (snapshot h self)
      in sum_list (map (\<lambda>kv. if snd kv then 1 else 0) jackpots))"

definition face_counts_per_roll :: "'a heap \<Rightarrow> Analyzer \<Rightarrow> (nat, 'a, nat) DataFrame" where
  "face_counts_per_roll h self =
     (let res = snapshot h self;
          unique_faces = unique (concat (data res));
          counts_list =
            map (\<lambda>ir. reindex (value_counts (snd ir)) unique_faces 0) (iterrows res);
          face_counts_df = DataFrame_of_series counts_list
      in face_counts_df\<lparr>index := index res\<rparr>)"

definition combo_count ::
  "('a::linorder) heap \<Rightarrow> Analyzer \<Rightarrow> ('a list, string, nat) DataFrame" where
  "combo_count h self =
     (let combos = apply_rows sort (snapshot h self);
          combo_counts = to_frame (value_counts (map snd combos)) ''Count''
      in combo_counts)"

definition permutation_count :: "'a heap \<Rightarrow> Analyzer \<Rightarrow> ('a list, string, nat) DataFrame" where
  "permutation_count h self =
     (let perms = apply_rows (\<lambda>row. row) (snapshot h self);
          perm_counts = to_frame (value_counts (map snd perms)) ''Count''
      in perm_counts)"

section \<open>Invariants\<close>

text \<open>A die as the constructor and \<open>change_weight\<close> leave it: unique faces, weights not negative.\<close>

definition Die_inv :: "'a Die \<Rightarrow> bool" where
  "Die_inv d = (distinct (map fst (Die_df d)) \<and> (\<forall>w \<in> set (map snd (Die_df d)). 0 \<le> w))"

text \<open>A results table: one row of cells per row label, one cell per column label in each row.\<close>

definition table :: "('i, 'c, 'v) DataFrame \<Rightarrow> bool" where
  "table fr =
     (length (data fr) = length (index fr) \<and>
      (\<forall>row \<in> set (data fr). length row = length (columns fr)))"

text \<open>A heap all of whose allocated frames are results tables.\<close>

definition frames_ok :: "'a heap \<Rightarrow> bool" where
  "frames_ok h = (\<forall>r < n_frames h. table (frames h r))"


section \<open>A worked example\<close>

text \<open>
  Two fair dice with the faces 1, 2, 3, a game of both, four rolls, and an analyzer of the
  game. The random source delivers \<open>1/5, 2/5, 0, 0, 2/5, 1/5, 2/5, 0, ...\<close>.
\<close>

definition heap0 :: "nat heap" where
  "heap0 = \<lparr>dies = (\<lambda>_. \<lparr>Die_df = []\<rparr>), n_dies = 0,
            games = (\<lambda>_. \<lparr>Game_dice = [], Game_results = None\<rparr>), n_games = 0,
            frames = (\<lambda>_. \<lparr>index = [], columns = [], data = []\<rparr>), n_frames = 0\<rparr>"

definition rng0 :: rng where
  "rng0 i = real ((i * i + 1) mod 5) / 5"

definition heap1 :: "nat heap" where
  "heap1 = snd (Die_init heap0 (Val [1, 2, 3]))"

definition heap2 :: "nat heap" where
  "heap2 = snd (Die_init heap1 (Val [1, 2, 3]))"

definition heap3 :: "nat heap" where
  "heap3 = snd (Game_init heap2 (Val [0, 1]))"

definition heap4 :: "nat heap" where
  "heap4 = fst (snd (play heap3 0 (Val 4) rng0))"

definition heap5 :: "nat heap" where
  "heap5 = snd (Analyzer_init heap4 (Val 0))"

definition analyzer0 :: Analyzer where
  "analyzer0 = \<lparr>game = 0, results = 1\<rparr>"

text \<open>The same heap after every weight of the second die has been set to 0.\<close>

definition heap6 :: "nat heap" where
  "heap6 =
     snd (change_weight (snd (change_weight (snd (change_weight heap5 1 1 (Val 0))) 1 2 (Val 0)))
            1 3 (Val 0))"


text \<open>
  The heap of the two dice after the weights of the faces 1 and 2 of the first die have been
  set to \<open>1e308\<close>, which is less than the largest float; the weight of face 3 is still 1.
\<close>

definition big_weight :: real where
  "big_weight = 10 ^ 308"


section \<open>Properties of the pandas operations\<close>

lemma set_unique_from: "set (unique_from seen xs) = set xs - set seen"
  by (induction xs arbitrary: seen) auto

lemma distinct_unique_from: "distinct (unique_from seen xs)"
  by (induction xs arbitrary: seen) (auto simp: set_unique_from)

lemma set_unique [simp]: "set (unique xs) = set xs"
  by (simp add: unique_def set_unique_from)

lemma distinct_unique [simp]: "distinct (unique xs)"
  by (simp add: unique_def distinct_unique_from)

lemma set_value_counts: "set (value_counts vs) = (\<lambda>k. (k, count_list vs k)) ` set vs"
  by (simp add: value_counts_def)

lemma distinct_keys_value_counts: "distinct (map fst (value_counts vs))"
proof -
  have "inj_on fst (set (value_counts vs))"
    by (auto simp: set_value_counts inj_on_def)
  moreover have "distinct (value_counts vs)"
    by (simp add: value_counts_def distinct_map inj_on_def)
  ultimately show ?thesis
    by (simp add: distinct_map)
qed

lemma map_of_value_counts:
  "map_of (value_counts vs) k = (if k \<in> set vs then Some (count_list vs k) else None)"
proof (cases "k \<in> set vs")
  case True
  then have "(k, count_list vs k) \<in> set (value_counts vs)"
    by (simp add: set_value_counts)
  then show ?thesis
    using True by (simp add: distinct_keys_value_counts)
next
  case False
  then have "k \<notin> fst ` set (value_counts vs)"
    by (auto simp: set_value_counts)
  then show ?thesis
    using False by (simp add: map_of_eq_None_iff)
qed

lemma sum_list_counts_unique: "sum_list (map (count_list vs) (unique vs)) = length vs"
proof -
  have "sum_list (map (count_list vs) (unique vs)) = sum (count_list vs) (set (unique vs))"
    by (rule sum_list_distinct_conv_sum_set) simp
  also have "\<dots> = length vs"
    by (simp add: sum_count_set)
  finally show ?thesis .
qed

lemma sum_value_counts: "sum_list (map snd (value_counts vs)) = length vs"
proof -
  have "mset (map snd (value_counts vs)) = mset (map (count_list vs) (unique vs))"
    by (simp add: value_counts_def multiset.map_comp comp_def)
  then have "sum_list (map snd (value_counts vs)) = sum_list (map (count_list vs) (unique vs))"
    by (metis sum_mset_sum_list)
  then show ?thesis
    by (simp add: sum_list_counts_unique)
qed

lemma sorted_desc_value_counts: "sorted_wrt (\<lambda>c c'. c' \<le> c) (map snd (value_counts vs))"
proof -
  have "sorted (map (\<lambda>kc. - int (snd kc)) (value_counts vs))"
    unfolding value_counts_def by (rule sorted_sort_key)
  then show ?thesis
    by (simp add: sorted_wrt_map)
qed

lemma data_to_frame: "concat (data (to_frame s name)) = map snd s"
  by (induction s) (simp_all add: to_frame_def)

lemma index_to_frame: "index (to_frame s name) = map fst s"
  by (simp add: to_frame_def)

lemma values_apply_rows:
  "table fr \<Longrightarrow> map snd (apply_rows f fr) = map f (data fr)"
  by (simp add: apply_rows_def table_def)

lemma count_list_map_filter:
  "count_list (map f xs) k = length (filter (\<lambda>x. f x = k) xs)"
  by (induction xs) auto

lemma counts_of_frame:
  "map_of (zip (index (to_frame (value_counts vs) name)) (concat (data (to_frame (value_counts vs) name)))) k =
     (if k \<in> set vs then Some (count_list vs k) else None)"
  by (simp add: data_to_frame index_to_frame zip_map_fst_snd map_of_value_counts)

lemma sum_list_bools:
  "sum_list (map (\<lambda>b. if b then 1 else 0) bs) = int (length (filter (\<lambda>b. b) bs))"
  by (induction bs) auto

lemma jackpot_filter:
  assumes "table (snapshot h a)"
  shows "jackpot h a = int (length (filter (\<lambda>row. card (set row) = 1) (data (snapshot h a))))"
proof -
  have "jackpot h a =
          sum_list (map (\<lambda>b. if b then 1 else 0)
            (map snd (apply_rows (\<lambda>row. card (set row) = 1) (snapshot h a))))"
    by (simp add: jackpot_def comp_def)
  also have "\<dots> = int (length (filter (\<lambda>b. b) (map (\<lambda>row. card (set row) = 1) (data (snapshot h a)))))"
    using assms by (simp only: values_apply_rows sum_list_bools)
  also have "\<dots> = int (length (filter (\<lambda>row. card (set row) = 1) (data (snapshot h a))))"
    by (simp add: filter_map comp_def)
  finally show ?thesis .
qed

lemma all_equal_iff: "card (set row) = 1 \<longleftrightarrow> row \<noteq> [] \<and> (\<forall>x \<in> set row. \<forall>y \<in> set row. x = y)"
proof
  assume "card (set row) = 1"
  then obtain v where "set row = {v}"
    by (auto simp: card_1_singleton_iff)
  then show "row \<noteq> [] \<and> (\<forall>x \<in> set row. \<forall>y \<in> set row. x = y)"
    by auto
next
  assume r: "row \<noteq> [] \<and> (\<forall>x \<in> set row. \<forall>y \<in> set row. x = y)"
  then have "set row = {hd row}"
    by (cases row) auto
  then show "card (set row) = 1"
    by simp
qed

lemma reindexed_counts:
  "map snd (reindex (value_counts row) U 0) = map (count_list row) U"
  by (simp add: reindex_def map_of_value_counts comp_def)

lemma labels_reindex: "map fst (reindex s U fill) = U"
  by (simp add: reindex_def comp_def)

lemma face_counts_data:
  assumes "table (snapshot h a)"
  shows "data (face_counts_per_roll h a) =
           map (\<lambda>row. map (count_list row) (unique (concat (data (snapshot h a))))) (data (snapshot h a))"
proof -
  have "map snd (iterrows (snapshot h a)) = data (snapshot h a)"
    using assms by (simp add: iterrows_def table_def)
  then have "map (\<lambda>ir. map (count_list (snd ir)) (unique (concat (data (snapshot h a))))) (iterrows (snapshot h a))
      = map (\<lambda>row. map (count_list row) (unique (concat (data (snapshot h a))))) (data (snapshot h a))"
    by (metis (no_types, lifting) map_map comp_def map_eq_conv)
  then show ?thesis
    by (simp add: face_counts_per_roll_def DataFrame_of_series_def Let_def reindexed_counts comp_def)
qed

lemma face_counts_columns:
  assumes "table (snapshot h a)"
  shows "columns (face_counts_per_roll h a) = unique (concat (data (snapshot h a)))"
proof (cases "data (snapshot h a)")
  case Nil
  then have "iterrows (snapshot h a) = []"
    by (simp add: iterrows_def)
  then show ?thesis
    using Nil by (simp add: face_counts_per_roll_def DataFrame_of_series_def Let_def unique_def)
next
  case (Cons row rows)
  then obtain i rest where "index (snapshot h a) = i # rest"
    using assms by (cases "index (snapshot h a)") (auto simp: table_def)
  then have "iterrows (snapshot h a) = (i, row) # zip rest rows"
    using Cons by (simp add: iterrows_def)
  then show ?thesis
    by (simp add: face_counts_per_roll_def DataFrame_of_series_def Let_def labels_reindex)
qed

lemma sum_row_counts:
  assumes "distinct U" and "set row \<subseteq> set U"
  shows "sum_list (map (count_list row) U) = length row"
proof -
  have "sum_list (map (count_list row) U) = sum (count_list row) (set U)"
    using assms(1) by (rule sum_list_distinct_conv_sum_set)
  also have "\<dots> = length row"
    using assms(2) by (simp add: sum_count_set)
  finally show ?thesis .
qed

section \<open>Properties of the operations on the heap\<close>

lemma map_of_set_at_same:
  "face \<in> set (map fst df) \<Longrightarrow> map_of (set_at df face w) face = Some w"
  by (induction df) (auto simp: set_at_def)

lemma map_of_set_at_other: "f \<noteq> face \<Longrightarrow> map_of (set_at df face w) f = map_of df f"
  by (induction df) (auto simp: set_at_def)

lemma faces_set_at: "map fst (set_at df face w) = map fst df"
  by (induction df) (auto simp: set_at_def)

lemma set_at_twice: "set_at (set_at df face w) face w = set_at df face w"
  by (induction df) (auto simp: set_at_def)

lemma change_weight_ok:
  assumes "face \<in> set (map fst (Die_df (dies h d)))" and "0 \<le> w"
  shows "change_weight h d face (Val w) =
           (Inr (), h\<lparr>dies := (dies h)(d := (dies h d)\<lparr>Die_df := set_at (Die_df (dies h d)) face w\<rparr>)\<rparr>)"
  using assms by (simp add: change_weight_def)

lemma roll_heap: "fst (snd (roll h d n g)) = h"
  by (simp add: roll_def Let_def split: arg.splits prod.splits)

lemma choice_error_rng: "isl (fst (choice a sz p g)) \<Longrightarrow> snd (choice a sz p g) = g"
  by (auto simp: choice_def Let_def split: if_splits prod.splits)

lemma roll_error_rng:
  assumes "isl (fst (roll h d n g))"
  shows "snd (snd (roll h d n g)) = g"
proof (cases n)
  case WrongType
  then show ?thesis by (simp add: roll_def)
next
  case (Val k)
  show ?thesis
  proof (cases "k \<le> 0")
    case True
    then show ?thesis by (simp add: roll_def Val)
  next
    case False
    let ?c = "choice (map fst (Die_df (dies h d))) (nat k) (roll_p (dies h d)) g"
    have r: "roll h d n g = (fst ?c, h, snd ?c)"
      using False by (simp add: roll_def Val Let_def split: prod.splits)
    then have "isl (fst ?c)"
      using assms by simp
    then have "snd ?c = g"
      by (rule choice_error_rng)
    then show ?thesis
      by (simp add: r)
  qed
qed

lemma play_loop_heap: "fst (snd (play_loop h ds n g rolls)) = h"
proof (induction ds arbitrary: g rolls)
  case Nil
  show ?case by simp
next
  case (Cons idie rest)
  have "fst (snd (roll h (snd idie) (Val n) g)) = h"
    by (rule roll_heap)
  then show ?case
    using Cons.IH by (auto split: prod.splits sum.splits)
qed

lemma play_error_heap:
  assumes "isl (fst (play h gm n g))"
  shows "fst (snd (play h gm n g)) = h"
proof (cases n)
  case WrongType
  then show ?thesis by (simp add: play_def)
next
  case (Val k)
  obtain out h' g' where l: "play_loop h (enumerate0 (Game_dice (games h gm))) k g [] = (out, h', g')"
    by (cases "play_loop h (enumerate0 (Game_dice (games h gm))) k g []") auto
  have "h' = h"
    using play_loop_heap [of h "enumerate0 (Game_dice (games h gm))" k g "[]"] l by simp
  then show ?thesis
    using assms l by (cases out) (auto simp: play_def Val split: if_splits)
qed

lemma Game_show_error_heap: "isl (fst (Game_show h gm form)) \<Longrightarrow> snd (Game_show h gm form) = h"
  by (simp add: Game_show_def Let_def split: option.splits if_splits)

text \<open>What play does to the heap.\<close>

lemma play_cases:
  obtains (failed) e g' where "play h gm n g = (Inl e, h, g')"
  | (played) k rolls g' where "n = Val k" "0 < k"
      "play_loop h (enumerate0 (Game_dice (games h gm))) k g [] = (Inr rolls, h, g')"
      "play h gm n g =
         (Inr (),
          h\<lparr>frames := (frames h)(n_frames h := DataFrame_of_dict rolls),
            n_frames := Suc (n_frames h),
            games := (games h)(gm := (games h gm)\<lparr>Game_results := Some (n_frames h)\<rparr>)\<rparr>,
          g')"
proof (cases n)
  case WrongType
  then show ?thesis using failed by (simp add: play_def)
next
  case (Val k)
  obtain out h' g' where l: "play_loop h (enumerate0 (Game_dice (games h gm))) k g [] = (out, h', g')"
    by (cases "play_loop h (enumerate0 (Game_dice (games h gm))) k g []") auto
  have h': "h' = h"
    using play_loop_heap [of h "enumerate0 (Game_dice (games h gm))" k g "[]"] l by simp
  show ?thesis
  proof (cases "k \<le> 0")
    case True
    then show ?thesis using failed by (simp add: play_def Val)
  next
    case False
    show ?thesis
    proof (cases out)
      case (Inl e)
      then show ?thesis using failed l h' False by (simp add: play_def Val)
    next
      case (Inr rolls)
      then show ?thesis using played [of k rolls g'] l h' False by (simp add: play_def Val)
    qed
  qed
qed

lemma play_keeps_frames:
  assumes "r < n_frames h"
  shows "frames (fst (snd (play h gm n g))) r = frames h r"
    and "r < n_frames (fst (snd (play h gm n g)))"
  using assms by (cases rule: play_cases [of h gm n g]; simp)+

lemma Analyzer_init_ok:
  assumes "Analyzer_init h (Val gm) = (Inr a, h1)"
  shows "\<exists>r0. Game_results (games h gm) = Some r0
           \<and> a = \<lparr>game = gm, results = n_frames h\<rparr>
           \<and> h1 = h\<lparr>frames := (frames h)(n_frames h := frames h r0), n_frames := Suc (n_frames h)\<rparr>"
  using assms
  by (auto simp: Analyzer_init_def Game_show_def split: option.splits prod.splits sum.splits)

section \<open>Properties of sampling\<close>












text \<open>The limit as a numeral, for evaluation.\<close>

lemma float_limit_numeral [code]:
  "float_limit =
     179769313486231580793728971405303415079934132710037826936173778980444968292764750946649017977587207096330286416692887910946555547851940402630657488671505820681908902000708383676273854845817711531764475730270069855571366959622842914819860834936475292719074168444365510704342711559699508093042880177904174497792"
  by (simp add: float_limit_def)

lemma big_weight_numeral [code]:
  "big_weight =
     100000000000000000000000000000000000000000000000000000000000000000000000000000000000000000000000000000000000000000000000000000000000000000000000000000000000000000000000000000000000000000000000000000000000000000000000000000000000000000000000000000000000000000000000000000000000000000000000000000000000000000000"
  by (simp add: big_weight_def)

lemma float_limit_large: "2 ^ 1023 < float_limit"
  by (simp add: float_limit_def)

lemma float_limit_gt_one: "1 < float_limit"
proof -
  have "(1::real) \<le> 2 ^ 1023"
    by (rule one_le_power) simp
  then show ?thesis
    using float_limit_large by simp
qed

lemma py_float_in_range:
  assumes "0 \<le> r" and "r < float_limit"
  shows "py_float r = Fin r"
  using assms float_limit_gt_one by (simp add: py_float_def)

lemma np_sum_Fin:
  assumes "\<forall>x \<in> set xs. 0 \<le> x" and "0 \<le> a" and "a + sum_list xs < float_limit"
  shows "foldl np_add (Fin a) (map Fin xs) = Fin (a + sum_list xs)"
  using assms
proof (induction xs arbitrary: a)
  case Nil
  then show ?case by simp
next
  case (Cons x xs)
  have rest: "0 \<le> sum_list xs"
    using Cons.prems(1) by (intro sum_list_nonneg) simp
  have x: "0 \<le> x"
    using Cons.prems(1) by simp
  have "a + x < float_limit"
    using Cons.prems(3) rest by simp
  then have step: "np_add (Fin a) (Fin x) = Fin (a + x)"
    using Cons.prems(2) x by (simp add: py_float_in_range)
  have "foldl np_add (Fin (a + x)) (map Fin xs) = Fin (a + x + sum_list xs)"
    using Cons.prems x by (intro Cons.IH) (simp_all add: add.assoc)
  then have "foldl np_add (np_add (Fin a) (Fin x)) (map Fin xs) = Fin (a + (x + sum_list xs))"
    by (simp only: step add.assoc)
  then show ?case
    by (simp del: np_add.simps)
qed

lemma py_sum_finite:
  assumes "\<forall>w \<in> set ws. 0 \<le> w" and "sum_list ws < float_limit"
  shows "py_sum ws = Fin (sum_list ws)"
  using np_sum_Fin [OF assms(1), of 0] assms(2) by (simp add: py_sum_def)


lemma np_sum_NaN: "foldl np_add NaN xs = NaN"
  by (induction xs) simp_all





lemma roll_p_zero:
  assumes "\<forall>w \<in> set (map snd (Die_df d)). w = 0"
  shows "roll_p d = replicate (length (Die_df d)) NaN"
proof -
  have "sum_list ws = 0" if "\<forall>w \<in> set ws. w = 0" for ws :: "real list"
    using that by (induction ws) simp_all
  then have "sum_list (map snd (Die_df d)) = 0"
    using assms by blast
  moreover have "\<forall>w \<in> set (map snd (Die_df d)). 0 \<le> w"
    using assms by simp
  ultimately have "py_sum (map snd (Die_df d)) = Fin 0"
    using py_sum_finite [of "map snd (Die_df d)"] float_limit_gt_one by simp
  then show ?thesis
    using assms by (auto simp: roll_p_def Let_def map_replicate_const [symmetric])
qed




text \<open>
  A die with at least one face whose weights are all 0: the weights are divided by their
  zero sum, and the sampler rejects the quotients.
\<close>

lemma roll_all_zero_weights:
  assumes ne: "Die_df (dies h d) \<noteq> []"
    and zero: "\<forall>w \<in> set (map snd (Die_df (dies h d))). w = 0"
    and n: "0 < n"
  shows "roll_p (dies h d) = replicate (length (Die_df (dies h d))) NaN
         \<and> roll h d (Val n) g = (Inl (ValueError ''probabilities contain NaN''), h, g)"
proof -
  have p: "roll_p (dies h d) = replicate (length (Die_df (dies h d))) NaN"
    using zero by (rule roll_p_zero)
  obtain k where k: "length (Die_df (dies h d)) = Suc k"
    using ne by (cases "Die_df (dies h d)") auto
  have "np_sum (roll_p (dies h d)) = NaN"
    by (simp add: p k np_sum_def np_sum_NaN)
  then have "choice (map fst (Die_df (dies h d))) (nat n) (roll_p (dies h d)) g =
               (Inl (ValueError ''probabilities contain NaN''), g)"
    using ne by (simp add: choice_def p)
  then show ?thesis
    using p n by (simp add: roll_def Let_def)
qed

text \<open>The invariant of a die is established by the constructor and kept by \<open>change_weight\<close>.\<close>

lemma distinct_length_card: "length fs = card (set fs) \<Longrightarrow> distinct fs"
  by (simp add: card_distinct)

lemma Die_init_inv:
  assumes "Die_init h (Val fs) = (Inr d, h')"
  shows "Die_inv (dies h' d) \<and> Die_df (dies h' d) = map (\<lambda>f. (f, 1)) fs"
  using assms
  by (auto simp: Die_init_def Die_inv_def comp_def card_distinct split: if_splits)

lemma weights_set_at:
  assumes "\<forall>x \<in> set df. 0 \<le> snd x" and "0 \<le> v" and "x \<in> set (set_at df face v)"
  shows "0 \<le> snd x"
  using assms by (induction df) (auto simp: set_at_def split: if_splits)

lemma change_weight_inv:
  assumes "Die_inv (dies h d')"
  shows "Die_inv (dies (snd (change_weight h d face w)) d')"
proof (cases "isl (fst (change_weight h d face w))")
  case True
  then have "snd (change_weight h d face w) = h"
    by (simp add: change_weight_def split: arg.splits if_splits)
  then show ?thesis
    using assms by simp
next
  case False
  then obtain v where v: "w = Val v" "0 \<le> v" "face \<in> set (map fst (Die_df (dies h d)))"
    by (cases w) (auto simp: change_weight_def split: if_splits)
  then have cw: "snd (change_weight h d face w) =
      h\<lparr>dies := (dies h)(d := (dies h d)\<lparr>Die_df := set_at (Die_df (dies h d)) face v\<rparr>)\<rparr>"
    by (simp add: change_weight_ok)
  show ?thesis
  proof (cases "d' = d")
    case True
    have "\<forall>x \<in> set (set_at (Die_df (dies h d)) face v). 0 \<le> snd x"
      using assms v(2) True weights_set_at [of "Die_df (dies h d)" v _ face]
      by (auto simp: Die_inv_def)
    then show ?thesis
      using assms True by (simp add: cw Die_inv_def faces_set_at)
  next
    case False
    then show ?thesis
      using assms by (simp add: cw)
  qed
qed

section \<open>Properties of play and show\<close>

lemma choice_length:
  "choice a sz p g = (Inr out, g') \<Longrightarrow> length out = sz"
  by (auto simp: choice_def Let_def random_sample_def split: if_splits)

lemma roll_length:
  assumes "roll h d (Val n) g = (Inr out, h', g')"
  shows "length out = nat n"
proof -
  have pos: "\<not> n \<le> 0"
    using assms by (auto simp: roll_def)
  obtain r g2 where c: "choice (map fst (Die_df (dies h d))) (nat n) (roll_p (dies h d)) g = (r, g2)"
    by (cases "choice (map fst (Die_df (dies h d))) (nat n) (roll_p (dies h d)) g") auto
  then have "r = Inr out"
    using assms pos by (simp add: roll_def Let_def)
  then show ?thesis
    using c choice_length by fastforce
qed

lemma play_loop_columns:
  assumes "play_loop h ds n g rolls = (Inr r, h', g')"
  shows "\<exists>new. r = rolls @ new \<and> map fst new = map fst ds \<and> (\<forall>kc \<in> set new. length (snd kc) = nat n)"
  using assms
proof (induction ds arbitrary: g rolls)
  case Nil
  then show ?case by simp
next
  case (Cons idie rest)
  obtain out h1 g1 where r1: "roll h (snd idie) (Val n) g = (out, h1, g1)"
    by (cases "roll h (snd idie) (Val n) g") auto
  show ?case
  proof (cases out)
    case (Inl e)
    then show ?thesis using Cons.prems r1 by simp
  next
    case (Inr col)
    have h1: "h1 = h"
      using roll_heap [of h "snd idie" "Val n" g] r1 by simp
    have len: "length col = nat n"
      using r1 Inr roll_length by blast
    have "play_loop h rest n g1 (rolls @ [(fst idie, col)]) = (Inr r, h', g')"
      using Cons.prems r1 Inr h1 by simp
    from Cons.IH [OF this] obtain new where
      new: "r = (rolls @ [(fst idie, col)]) @ new" "map fst new = map fst rest"
        "\<forall>kc \<in> set new. length (snd kc) = nat n"
      by blast
    have "r = rolls @ ((fst idie, col) # new)"
      using new(1) by simp
    moreover have "map fst ((fst idie, col) # new) = map fst (idie # rest)"
      using new(2) by simp
    moreover have "\<forall>kc \<in> set ((fst idie, col) # new). length (snd kc) = nat n"
      using new(3) len by simp
    ultimately show ?thesis by blast
  qed
qed

lemma labels_enumerate0: "map fst (enumerate0 xs) = [0..<length xs]"
  by (simp add: enumerate0_def)

lemma DataFrame_of_dict_table:
  assumes "rolls \<noteq> []" and "\<forall>kc \<in> set rolls. length (snd kc) = m"
  shows "index (DataFrame_of_dict rolls) = [0..<m]"
    and "columns (DataFrame_of_dict rolls) = map fst rolls"
    and "table (DataFrame_of_dict rolls)"
  using assms by (cases rolls; simp add: DataFrame_of_dict_def table_def Let_def)+

lemma stack_labels:
  assumes "length idx = length dat" and "\<forall>row \<in> set dat. length row = length cols"
  shows "map fst (concat (map (\<lambda>ir. map (\<lambda>cv. ((fst ir, fst cv), snd cv)) (zip cols (snd ir)))
                             (zip idx dat))) = List.product idx cols"
  using assms
proof (induction idx dat rule: list_induct2)
  case Nil
  show ?case by simp
next
  case (Cons i idx row dat)
  have "map (\<lambda>cv. (i, fst cv)) (zip cols row) = map (Pair i) (map fst (zip cols row))"
    by simp
  also have "\<dots> = map (Pair i) cols"
    using Cons.prems by simp
  finally show ?case
    using Cons by (simp add: comp_def)
qed

lemma stack_values:
  assumes "length idx = length dat" and "\<forall>row \<in> set dat. length row = length cols"
  shows "map snd (concat (map (\<lambda>ir. map (\<lambda>cv. ((fst ir, fst cv), snd cv)) (zip cols (snd ir)))
                             (zip idx dat))) = concat dat"
  using assms
proof (induction idx dat rule: list_induct2)
  case Nil
  show ?case by simp
next
  case (Cons i idx row dat)
  have "map (\<lambda>cv. snd cv) (zip cols row) = row"
    using Cons.prems by simp
  then show ?case
    using Cons by (simp add: comp_def)
qed

lemma stack_table:
  assumes "table fr"
  shows "map fst (stack fr) = List.product (index fr) (columns fr)"
    and "map snd (stack fr) = concat (data fr)"
  using assms stack_labels [of "index fr" "data fr" "columns fr"]
    stack_values [of "index fr" "data fr" "columns fr"]
  by (simp_all add: stack_def table_def)

lemma table_to_frame: "table (to_frame s name)"
  by (simp add: to_frame_def table_def)

lemma narrow_frame_of_table:
  assumes "table fr"
  shows "index (to_frame (stack fr) name) = List.product (index fr) (columns fr)"
    and "concat (data (to_frame (stack fr) name)) = concat (data fr)"
    and "table (to_frame (stack fr) name)"
  using stack_table [OF assms]
  by (simp_all add: index_to_frame data_to_frame table_to_frame)

section \<open>Heaps that the operations produce\<close>

text \<open>
  Every operation keeps all allocated frames results tables, the empty heap has none, and a
  constructed game has the dice it was given, at least one. So the snapshot of an analyzer
  constructed by \<open>Analyzer_init\<close> is a results table, and the game that \<open>play\<close> is called on has
  dice.
\<close>

lemma DataFrame_of_dict_is_table:
  assumes "\<forall>kc \<in> set rolls. length (snd kc) = m"
  shows "table (DataFrame_of_dict rolls)"
  using assms by (cases rolls) (simp_all add: DataFrame_of_dict_def table_def Let_def)

lemma frames_ok_Die_init: "frames_ok h \<Longrightarrow> frames_ok (snd (Die_init h faces))"
  by (simp add: Die_init_def frames_ok_def split: arg.splits)

lemma frames_ok_change_weight: "frames_ok h \<Longrightarrow> frames_ok (snd (change_weight h d face w))"
  by (simp add: change_weight_def frames_ok_def split: arg.splits)

lemma frames_ok_Game_init: "frames_ok h \<Longrightarrow> frames_ok (snd (Game_init h ds))"
  by (simp add: Game_init_def frames_ok_def split: arg.splits)

lemma frames_ok_play:
  assumes "frames_ok h"
  shows "frames_ok (fst (snd (play h gm n g)))"
proof (cases rule: play_cases [of h gm n g])
  case (failed e g')
  then show ?thesis using assms by simp
next
  case (played k rolls g')
  from play_loop_columns [OF played(3)] have "\<forall>kc \<in> set rolls. length (snd kc) = nat k"
    by auto
  then have "table (DataFrame_of_dict rolls)"
    by (rule DataFrame_of_dict_is_table)
  then show ?thesis
    using assms by (simp add: played(4) frames_ok_def less_Suc_eq)
qed

lemma frames_ok_Game_show:
  assumes "frames_ok h"
    and "\<forall>r. Game_results (games h gm) = Some r \<longrightarrow> r < n_frames h"
  shows "frames_ok (snd (Game_show h gm form))"
  using assms
  by (auto simp: Game_show_def frames_ok_def less_Suc_eq Let_def split: option.splits)

lemma snapshot_is_table:
  assumes "frames_ok h" and "Analyzer_init h (Val gm) = (Inr a, h1)"
    and "Game_results (games h gm) = Some r" and "r < n_frames h"
  shows "table (snapshot h1 a)"
  using assms Analyzer_init_ok [OF assms(2)]
  by (auto simp: snapshot_def frames_ok_def)

lemma Game_init_dice:
  assumes "Game_init h (Val ds) = (Inr gm, h')"
  shows "Game_dice (games h' gm) = ds \<and> ds \<noteq> [] \<and> Game_results (games h' gm) = None"
  using assms by (auto simp: Game_init_def split: if_splits)

section \<open>The example, evaluated\<close>


lemma play_example: "fst (play heap3 0 (Val 4) rng0) = Inr ()"
  by code_simp

lemma analyzer_example: "fst (Analyzer_init heap4 (Val 0)) = Inr analyzer0"
  by code_simp

lemma snapshot_example:
  "snapshot heap5 analyzer0 =
     \<lparr>index = [0, 1, 2, 3], columns = [0, 1], data = [[1, 2], [2, 1], [1, 2], [1, 1]]\<rparr>"
  by code_simp

lemma table_example: "table (snapshot heap5 analyzer0)"
  by (simp add: snapshot_example table_def)

lemma played_example:
  "play heap3 0 (Val 4) rng0 = (Inr (), heap4, snd (snd (play heap3 0 (Val 4) rng0)))"
  using play_example by (simp add: heap4_def prod_eq_iff)


lemma zero_die_example: "Die_df (dies heap6 1) = [(1, 0), (2, 0), (3, 0)]"
  by code_simp

lemma init_example: "Analyzer_init heap4 (Val 0) = (Inr analyzer0, heap5)"
  using analyzer_example by (simp add: heap5_def prod_eq_iff)

text \<open>
  The random source is not an object of the module: a \<open>play\<close> that fails in the roll of its
  second die has drawn the samples of the first.
\<close>

lemma failed_play_has_drawn:
  "isl (fst (play heap6 0 (Val 2) rng0)) \<and> snd (snd (play heap6 0 (Val 2) rng0)) 0 = rng0 2"
  by code_simp

section \<open>The statistics of the analyzer\<close>

text \<open>
  C1. For an analyzer whose snapshot is a results table, \<open>face_counts_per_roll\<close> returns a
  frame with the row labels of the snapshot (one row per roll) and one column for every
  distinct value that occurs anywhere in the snapshot, each value once. In every row there
  is one cell per column; the cell of roll \<open>i\<close> under the value \<open>v\<close> is the number of dice
  showing \<open>v\<close> in roll \<open>i\<close>, which is 0 when \<open>v\<close> does not occur in that roll; and the cells
  of a row add up to the number of dice.
\<close>

theorem face_counts_per_roll_table:
  assumes "table (snapshot h a)"
  shows "index (face_counts_per_roll h a) = index (snapshot h a)
         \<and> length (data (face_counts_per_roll h a)) = length (index (snapshot h a))
         \<and> distinct (columns (face_counts_per_roll h a))
         \<and> set (columns (face_counts_per_roll h a)) = \<Union> (set ` set (data (snapshot h a)))
         \<and> (\<forall>i < length (data (snapshot h a)).
               length (data (face_counts_per_roll h a) ! i) = length (columns (face_counts_per_roll h a))
               \<and> (\<forall>j < length (columns (face_counts_per_roll h a)).
                     data (face_counts_per_roll h a) ! i ! j =
                       count_list (data (snapshot h a) ! i) (columns (face_counts_per_roll h a) ! j)
                     \<and> (columns (face_counts_per_roll h a) ! j \<notin> set (data (snapshot h a) ! i) \<longrightarrow>
                          data (face_counts_per_roll h a) ! i ! j = 0))
               \<and> sum_list (data (face_counts_per_roll h a) ! i) = length (columns (snapshot h a)))"
proof -
  let ?U = "unique (concat (data (snapshot h a)))"
  have cols: "columns (face_counts_per_roll h a) = ?U"
    using assms by (rule face_counts_columns)
  have dat: "data (face_counts_per_roll h a) = map (\<lambda>row. map (count_list row) ?U) (data (snapshot h a))"
    using assms by (rule face_counts_data)
  have n: "length (data (snapshot h a)) = length (index (snapshot h a))"
    using assms by (simp add: table_def)
  have "index (face_counts_per_roll h a) = index (snapshot h a)"
    by (simp add: face_counts_per_roll_def Let_def)
  moreover have "length (data (face_counts_per_roll h a)) = length (index (snapshot h a))"
    by (simp add: dat n)
  moreover have "distinct (columns (face_counts_per_roll h a))"
    by (simp add: cols)
  moreover have "set (columns (face_counts_per_roll h a)) = \<Union> (set ` set (data (snapshot h a)))"
    by (simp add: cols)
  moreover have "length (data (face_counts_per_roll h a) ! i) = length (columns (face_counts_per_roll h a))
               \<and> (\<forall>j < length (columns (face_counts_per_roll h a)).
                     data (face_counts_per_roll h a) ! i ! j =
                       count_list (data (snapshot h a) ! i) (columns (face_counts_per_roll h a) ! j)
                     \<and> (columns (face_counts_per_roll h a) ! j \<notin> set (data (snapshot h a) ! i) \<longrightarrow>
                          data (face_counts_per_roll h a) ! i ! j = 0))
               \<and> sum_list (data (face_counts_per_roll h a) ! i) = length (columns (snapshot h a))"
    if i: "i < length (data (snapshot h a))" for i
  proof -
    have row: "data (face_counts_per_roll h a) ! i = map (count_list (data (snapshot h a) ! i)) ?U"
      using i by (simp add: dat)
    have mem: "data (snapshot h a) ! i \<in> set (data (snapshot h a))"
      using i by simp
    then have len: "length (data (snapshot h a) ! i) = length (columns (snapshot h a))"
      using assms by (simp add: table_def)
    have "set (data (snapshot h a) ! i) \<subseteq> set ?U"
      using mem by auto
    then have "sum_list (data (face_counts_per_roll h a) ! i) = length (data (snapshot h a) ! i)"
      unfolding row by (intro sum_row_counts) simp_all
    then show ?thesis
      by (simp add: row cols len)
  qed
  ultimately show ?thesis by blast
qed

theorem face_counts_per_roll_table_witness:
  "table (snapshot heap5 analyzer0)
   \<and> face_counts_per_roll heap5 analyzer0 =
       \<lparr>index = [0, 1, 2, 3], columns = [1, 2], data = [[1, 1], [1, 1], [1, 1], [2, 0]]\<rparr>
   \<and> sum_list (data (face_counts_per_roll heap5 analyzer0) ! 3) = 2
   \<and> data (face_counts_per_roll heap5 analyzer0) ! 3 ! 1 = 0"
proof -
  have fc: "face_counts_per_roll heap5 analyzer0 =
       \<lparr>index = [0, 1, 2, 3], columns = [1, 2], data = [[1, 1], [1, 1], [1, 1], [2, 0]]\<rparr>"
    by code_simp
  have "\<forall>i < length (data (snapshot heap5 analyzer0)).
          sum_list (data (face_counts_per_roll heap5 analyzer0) ! i) =
            length (columns (snapshot heap5 analyzer0))"
    using face_counts_per_roll_table [OF table_example] by blast
  then have "sum_list (data (face_counts_per_roll heap5 analyzer0) ! 3) = 2"
    by (simp add: snapshot_example)
  then show ?thesis
    using table_example fc by simp
qed

text \<open>
  C2. For an analyzer whose snapshot is a results table of \<open>n\<close> rolls, \<open>combo_count\<close> has one
  row per sorted tuple of a roll's outcomes, and the count under the key \<open>k\<close> is the number
  of rolls whose sorted outcomes are \<open>k\<close>; \<open>permutation_count\<close> has one row per tuple of
  outcomes in die order, and the count under the key \<open>p\<close> is the number of rolls that are
  exactly \<open>p\<close>. No key occurs twice, and in both frames the counts add up to \<open>n\<close>.
\<close>

theorem combo_permutation_counts:
  assumes "table (snapshot h a)"
  shows "map_of (zip (index (combo_count h a)) (concat (data (combo_count h a)))) k =
           (if k \<in> sort ` set (data (snapshot h a))
            then Some (length (filter (\<lambda>row. sort row = k) (data (snapshot h a)))) else None)
         \<and> distinct (index (combo_count h a))
         \<and> sum_list (concat (data (combo_count h a))) = length (index (snapshot h a))
         \<and> map_of (zip (index (permutation_count h a)) (concat (data (permutation_count h a)))) p =
           (if p \<in> set (data (snapshot h a))
            then Some (length (filter (\<lambda>row. row = p) (data (snapshot h a)))) else None)
         \<and> distinct (index (permutation_count h a))
         \<and> sum_list (concat (data (permutation_count h a))) = length (index (snapshot h a))"
proof -
  have n: "length (data (snapshot h a)) = length (index (snapshot h a))"
    using assms by (simp add: table_def)
  have c: "combo_count h a = to_frame (value_counts (map sort (data (snapshot h a)))) ''Count''"
    using assms by (simp add: combo_count_def values_apply_rows)
  have p: "permutation_count h a = to_frame (value_counts (data (snapshot h a))) ''Count''"
    using assms by (simp add: permutation_count_def values_apply_rows)
  have "map_of (zip (index (combo_count h a)) (concat (data (combo_count h a)))) k =
           (if k \<in> sort ` set (data (snapshot h a))
            then Some (length (filter (\<lambda>row. sort row = k) (data (snapshot h a)))) else None)"
    unfolding c counts_of_frame by (simp add: count_list_map_filter)
  moreover have "distinct (index (combo_count h a))"
    unfolding c by (simp add: index_to_frame distinct_keys_value_counts)
  moreover have "sum_list (concat (data (combo_count h a))) = length (index (snapshot h a))"
    unfolding c by (simp add: data_to_frame sum_value_counts n)
  moreover have "map_of (zip (index (permutation_count h a)) (concat (data (permutation_count h a)))) p =
           (if p \<in> set (data (snapshot h a))
            then Some (length (filter (\<lambda>row. row = p) (data (snapshot h a)))) else None)"
    unfolding p counts_of_frame using count_list_map_filter [of "\<lambda>row. row" "data (snapshot h a)" p]
    by simp
  moreover have "distinct (index (permutation_count h a))"
    unfolding p by (simp add: index_to_frame distinct_keys_value_counts)
  moreover have "sum_list (concat (data (permutation_count h a))) = length (index (snapshot h a))"
    unfolding p by (simp add: data_to_frame sum_value_counts n)
  ultimately show ?thesis by blast
qed

theorem combo_permutation_counts_witness:
  "table (snapshot heap5 analyzer0)
   \<and> map_of (zip (index (combo_count heap5 analyzer0))
               (concat (data (combo_count heap5 analyzer0)))) [1, 2] = Some 3
   \<and> map_of (zip (index (permutation_count heap5 analyzer0))
               (concat (data (permutation_count heap5 analyzer0)))) [1, 2] = Some 2
   \<and> map_of (zip (index (permutation_count heap5 analyzer0))
               (concat (data (permutation_count heap5 analyzer0)))) [2, 1] = Some 1
   \<and> sum_list (concat (data (combo_count heap5 analyzer0))) = 4
   \<and> sum_list (concat (data (permutation_count heap5 analyzer0))) = 4"
  using combo_permutation_counts [OF table_example, of "[1, 2]" "[1, 2]"]
        combo_permutation_counts [OF table_example, of "[1, 2]" "[2, 1]"]
        table_example
  by (simp add: snapshot_example)

text \<open>
  C3. For an analyzer whose snapshot is a results table of \<open>n\<close> rolls, \<open>jackpot\<close> is the number
  of rolls whose outcomes are all the same; it is at least 0 and at most \<open>n\<close>, and it is \<open>n\<close>
  when the game has exactly one die.
\<close>

theorem jackpot_counts_equal_rows:
  assumes "table (snapshot h a)"
  shows "jackpot h a =
           int (length (filter (\<lambda>row. row \<noteq> [] \<and> (\<forall>x \<in> set row. \<forall>y \<in> set row. x = y))
                        (data (snapshot h a))))
         \<and> 0 \<le> jackpot h a
         \<and> jackpot h a \<le> int (length (index (snapshot h a)))
         \<and> (length (columns (snapshot h a)) = 1 \<longrightarrow>
              jackpot h a = int (length (index (snapshot h a))))"
proof -
  have j: "jackpot h a = int (length (filter (\<lambda>row. card (set row) = 1) (data (snapshot h a))))"
    using assms by (rule jackpot_filter)
  have n: "length (data (snapshot h a)) = length (index (snapshot h a))"
    using assms by (simp add: table_def)
  have "jackpot h a =
           int (length (filter (\<lambda>row. row \<noteq> [] \<and> (\<forall>x \<in> set row. \<forall>y \<in> set row. x = y))
                        (data (snapshot h a))))"
    unfolding j by (simp only: all_equal_iff)
  moreover have "0 \<le> jackpot h a"
    unfolding j by simp
  moreover have "jackpot h a \<le> int (length (index (snapshot h a)))"
    unfolding j n [symmetric] by simp
  moreover have "jackpot h a = int (length (index (snapshot h a)))"
    if one: "length (columns (snapshot h a)) = 1"
  proof -
    have "\<forall>row \<in> set (data (snapshot h a)). card (set row) = 1"
    proof
      fix row assume "row \<in> set (data (snapshot h a))"
      then have "length row = 1"
        using assms one by (simp add: table_def)
      then obtain v where "row = [v]"
        by (cases row) auto
      then show "card (set row) = 1" by simp
    qed
    then have "filter (\<lambda>row. card (set row) = 1) (data (snapshot h a)) = data (snapshot h a)"
      by (simp add: filter_id_conv)
    then show ?thesis
      unfolding j by (simp add: n)
  qed
  ultimately show ?thesis by blast
qed

theorem jackpot_counts_equal_rows_witness:
  "table (snapshot heap5 analyzer0) \<and> jackpot heap5 analyzer0 = 1
   \<and> jackpot heap5 analyzer0 \<le> 4"
  using jackpot_counts_equal_rows [OF table_example] table_example
  by (simp add: snapshot_example)

text \<open>
  C10. In the frames returned by \<open>combo_count\<close> and \<open>permutation_count\<close> the counts never
  increase from one row to the next.
\<close>

theorem counts_descending:
  "sorted_wrt (\<lambda>c c'. c' \<le> c) (concat (data (combo_count h a))) \<and>
   sorted_wrt (\<lambda>c c'. c' \<le> c) (concat (data (permutation_count h a)))"
  by (simp add: combo_count_def permutation_count_def data_to_frame sorted_desc_value_counts)

section \<open>Changing weights\<close>

text \<open>
  C8. For a die, a face of that die and a weight \<open>w \<ge> 0\<close>, \<open>change_weight\<close> succeeds; afterwards
  \<open>show\<close> reports \<open>w\<close> for that face and the weight it had before for every other face, with
  the faces and their order unchanged; no other die, no game and no results frame is
  changed; and a second \<open>change_weight\<close> with the same arguments succeeds and leaves the
  heap as the first one left it.
\<close>

theorem change_weight_only_that_face:
  assumes "face \<in> set (map fst (Die_show h d))" and "0 \<le> w"
  shows "fst (change_weight h d face (Val w)) = Inr ()
         \<and> map_of (Die_show (snd (change_weight h d face (Val w))) d) face = Some w
         \<and> (\<forall>f. f \<noteq> face \<longrightarrow>
               map_of (Die_show (snd (change_weight h d face (Val w))) d) f = map_of (Die_show h d) f)
         \<and> map fst (Die_show (snd (change_weight h d face (Val w))) d) = map fst (Die_show h d)
         \<and> (\<forall>d'. d' \<noteq> d \<longrightarrow> dies (snd (change_weight h d face (Val w))) d' = dies h d')
         \<and> n_dies (snd (change_weight h d face (Val w))) = n_dies h
         \<and> games (snd (change_weight h d face (Val w))) = games h
         \<and> n_games (snd (change_weight h d face (Val w))) = n_games h
         \<and> frames (snd (change_weight h d face (Val w))) = frames h
         \<and> n_frames (snd (change_weight h d face (Val w))) = n_frames h
         \<and> change_weight (snd (change_weight h d face (Val w))) d face (Val w) =
             (Inr (), snd (change_weight h d face (Val w)))"
proof -
  let ?h' = "h\<lparr>dies := (dies h)(d := (dies h d)\<lparr>Die_df := set_at (Die_df (dies h d)) face w\<rparr>)\<rparr>"
  have face: "face \<in> set (map fst (Die_df (dies h d)))"
    using assms(1) by (simp add: Die_show_def)
  have cw: "change_weight h d face (Val w) = (Inr (), ?h')"
    using face assms(2) by (rule change_weight_ok)
  have face': "face \<in> set (map fst (Die_df (dies ?h' d)))"
    using face by (simp add: faces_set_at)
  have again: "change_weight ?h' d face (Val w) = (Inr (), ?h')"
    using change_weight_ok [OF face' assms(2)] by (simp add: set_at_twice)
  show ?thesis
    unfolding cw using face again
    by (simp add: Die_show_def map_of_set_at_same map_of_set_at_other faces_set_at)
qed

theorem change_weight_only_that_face_witness:
  "(2::nat) \<in> set (map fst (Die_show heap2 0)) \<and> (0::real) \<le> 5 / 2
   \<and> fst (change_weight heap2 0 2 (Val (5 / 2))) = Inr ()
   \<and> Die_show (snd (change_weight heap2 0 2 (Val (5 / 2)))) 0 = [(1, 1), (2, 5 / 2), (3, 1)]
   \<and> Die_show heap2 0 = [(1, 1), (2, 1), (3, 1)]
   \<and> frames (snd (change_weight heap2 0 2 (Val (5 / 2)))) = frames heap2"
proof -
  have face: "(2::nat) \<in> set (map fst (Die_show heap2 0))"
    by code_simp
  have w: "(0::real) \<le> 5 / 2"
    by simp
  have after: "Die_show (snd (change_weight heap2 0 2 (Val (5 / 2)))) 0 = [(1, 1), (2, 5 / 2), (3, 1)]"
    by code_simp
  have before: "Die_show heap2 0 = [(1, 1), (2, 1), (3, 1)]"
    by code_simp
  show ?thesis
    using change_weight_only_that_face [OF face w] face after before by simp
qed

section \<open>Failing operations\<close>

text \<open>
  C7. When an operation raises (the construction of a die, \<open>change_weight\<close>, \<open>roll\<close>, the
  construction of a game, \<open>play\<close>, \<open>show\<close> of a game, the construction of an analyzer), the
  heap, that is every die, every game and every results frame, is as it was before the
  call. (\<open>show\<close> of a die does not raise.) A failing \<open>roll\<close> also leaves the random source
  where it was. The random source is not an object of the module: a \<open>play\<close> that fails
  in the roll of a later die has drawn the samples of the dice before it.
\<close>

theorem failed_operation_leaves_heap:
  "(isl (fst (Die_init h faces)) \<longrightarrow> snd (Die_init h faces) = h)
   \<and> (isl (fst (change_weight h d face w)) \<longrightarrow> snd (change_weight h d face w) = h)
   \<and> (isl (fst (roll h d n g)) \<longrightarrow> snd (roll h d n g) = (h, g))
   \<and> (isl (fst (Game_init h ds)) \<longrightarrow> snd (Game_init h ds) = h)
   \<and> (isl (fst (play h gm n g)) \<longrightarrow> fst (snd (play h gm n g)) = h)
   \<and> (isl (fst (Game_show h gm form)) \<longrightarrow> snd (Game_show h gm form) = h)
   \<and> (isl (fst (Analyzer_init h ga)) \<longrightarrow> snd (Analyzer_init h ga) = h)"
proof -
  have "isl (fst (Die_init h faces)) \<longrightarrow> snd (Die_init h faces) = h"
    by (simp add: Die_init_def split: arg.splits)
  moreover have "isl (fst (change_weight h d face w)) \<longrightarrow> snd (change_weight h d face w) = h"
    by (simp add: change_weight_def split: arg.splits)
  moreover have "isl (fst (roll h d n g)) \<longrightarrow> snd (roll h d n g) = (h, g)"
    using roll_heap [of h d n g] roll_error_rng [of h d n g]
    by (metis prod.collapse)
  moreover have "isl (fst (Game_init h ds)) \<longrightarrow> snd (Game_init h ds) = h"
    by (simp add: Game_init_def split: arg.splits)
  moreover have "isl (fst (play h gm n g)) \<longrightarrow> fst (snd (play h gm n g)) = h"
    using play_error_heap by blast
  moreover have "isl (fst (Game_show h gm form)) \<longrightarrow> snd (Game_show h gm form) = h"
    using Game_show_error_heap by blast
  moreover have "isl (fst (Analyzer_init h ga)) \<longrightarrow> snd (Analyzer_init h ga) = h"
  proof (cases ga)
    case WrongType
    then show ?thesis by (simp add: Analyzer_init_def)
  next
    case (Val gm')
    show ?thesis
      using Game_show_error_heap [of h gm' "''wide''"]
      by (auto simp: Analyzer_init_def Val split: prod.splits sum.splits)
  qed
  ultimately show ?thesis by blast
qed

theorem failed_operation_leaves_heap_witness:
  "isl (fst (Die_init heap0 (Val [1, 1, 2]))) \<and> snd (Die_init heap0 (Val [1, 1, 2])) = heap0
   \<and> isl (fst (change_weight heap2 0 2 (Val (- 1))))
   \<and> snd (change_weight heap2 0 2 (Val (- 1))) = heap2
   \<and> isl (fst (roll heap2 0 (Val 0) rng0)) \<and> snd (roll heap2 0 (Val 0) rng0) = (heap2, rng0)
   \<and> isl (fst (Game_init heap2 (Val []))) \<and> snd (Game_init heap2 (Val [])) = heap2
   \<and> isl (fst (play heap6 0 (Val 2) rng0)) \<and> fst (snd (play heap6 0 (Val 2) rng0)) = heap6
   \<and> isl (fst (Game_show heap3 0 ''wide'')) \<and> snd (Game_show heap3 0 ''wide'') = heap3
   \<and> isl (fst (Analyzer_init heap3 (Val 0))) \<and> snd (Analyzer_init heap3 (Val 0)) = heap3"
proof -
  have 1: "isl (fst (Die_init heap0 (Val [1, 1, 2])))" by code_simp
  have 2: "isl (fst (change_weight heap2 0 2 (Val (- 1))))" by code_simp
  have 3: "isl (fst (roll heap2 0 (Val 0) rng0))" by code_simp
  have 4: "isl (fst (Game_init heap2 (Val [])))" by code_simp
  have 5: "isl (fst (play heap6 0 (Val 2) rng0))" by code_simp
  have 6: "isl (fst (Game_show heap3 0 ''wide''))" by code_simp
  have 7: "isl (fst (Analyzer_init heap3 (Val 0)))" by code_simp
  have a: "snd (Die_init heap0 (Val [1, 1, 2])) = heap0"
    using 1 failed_operation_leaves_heap [where h = heap0 and faces = "Val [1, 1, 2]"]
    by blast
  have b: "snd (change_weight heap2 0 2 (Val (- 1))) = heap2"
    using 2 failed_operation_leaves_heap
      [where h = heap2 and d = 0 and face = 2 and w = "Val (- 1)"]
    by blast
  have c: "snd (roll heap2 0 (Val 0) rng0) = (heap2, rng0)"
    using 3 failed_operation_leaves_heap [where h = heap2 and d = 0 and n = "Val 0" and g = rng0]
    by blast
  have d: "snd (Game_init heap2 (Val [])) = heap2"
    using 4 failed_operation_leaves_heap [where h = heap2 and ds = "Val []"]
    by blast
  have e: "fst (snd (play heap6 0 (Val 2) rng0)) = heap6"
    using 5 failed_operation_leaves_heap [where h = heap6 and gm = 0 and n = "Val 2" and g = rng0]
    by blast
  have f: "snd (Game_show heap3 0 ''wide'') = heap3"
    using 6 failed_operation_leaves_heap [where h = heap3 and gm = 0 and form = "''wide''"]
    by blast
  have g: "snd (Analyzer_init heap3 (Val 0)) = heap3"
    using 7 failed_operation_leaves_heap [where h = heap3 and ga = "Val 0"]
    by blast
  show ?thesis
    using 1 2 3 4 5 6 7 a b c d e f g by simp
qed

section \<open>The snapshot of an analyzer\<close>

text \<open>
  C9. When an analyzer is constructed from a game whose results are the frame \<open>r0\<close>, its
  snapshot is a new frame object with the content of \<open>r0\<close>, and the game's own frame is
  as before. A later \<open>play\<close> on the same game, whether it succeeds or fails, leaves the
  snapshot and therefore \<open>jackpot\<close>, \<open>face_counts_per_roll\<close>, \<open>combo_count\<close> and
  \<open>permutation_count\<close> unchanged, and the game's new results are never the analyzer's frame.
\<close>

theorem analyzer_keeps_its_copy:
  fixes h :: "('a::linorder) heap"
  assumes init: "Analyzer_init h (Val gm) = (Inr a, h1)"
    and res: "Game_results (games h gm) = Some r0"
    and alloc: "r0 < n_frames h"
  shows "snapshot h1 a = frames h r0
         \<and> results a \<noteq> r0
         \<and> frames h1 r0 = frames h r0
         \<and> snapshot (fst (snd (play h1 gm n g))) a = snapshot h1 a
         \<and> jackpot (fst (snd (play h1 gm n g))) a = jackpot h1 a
         \<and> face_counts_per_roll (fst (snd (play h1 gm n g))) a = face_counts_per_roll h1 a
         \<and> combo_count (fst (snd (play h1 gm n g))) a = combo_count h1 a
         \<and> permutation_count (fst (snd (play h1 gm n g))) a = permutation_count h1 a
         \<and> Game_results (games (fst (snd (play h1 gm n g))) gm) \<noteq> Some (results a)"
proof -
  from Analyzer_init_ok [OF init] res
  have a: "a = \<lparr>game = gm, results = n_frames h\<rparr>"
    and h1: "h1 = h\<lparr>frames := (frames h)(n_frames h := frames h r0), n_frames := Suc (n_frames h)\<rparr>"
    by auto
  have copy: "snapshot h1 a = frames h r0"
    by (simp add: snapshot_def a h1)
  have fresh: "results a \<noteq> r0"
    using alloc by (simp add: a)
  have kept: "frames h1 r0 = frames h r0"
    using alloc by (simp add: h1)
  have "results a < n_frames h1"
    by (simp add: a h1)
  then have same: "snapshot (fst (snd (play h1 gm n g))) a = snapshot h1 a"
    unfolding snapshot_def by (rule play_keeps_frames)
  have other: "Game_results (games (fst (snd (play h1 gm n g))) gm) \<noteq> Some (results a)"
    using res alloc by (cases rule: play_cases [of h1 gm n g]) (simp_all add: a h1)
  show ?thesis
    using copy fresh kept same other
    by (simp add: jackpot_def face_counts_per_roll_def combo_count_def permutation_count_def)
qed

theorem analyzer_keeps_its_copy_witness:
  "Analyzer_init heap4 (Val 0) = (Inr analyzer0, heap5)
   \<and> Game_results (games heap4 0) = Some 0 \<and> 0 < n_frames heap4
   \<and> fst (play heap5 0 (Val 2) rng0) = Inr ()
   \<and> snapshot (fst (snd (play heap5 0 (Val 2) rng0))) analyzer0 =
       \<lparr>index = [0, 1, 2, 3], columns = [0, 1], data = [[1, 2], [2, 1], [1, 2], [1, 1]]\<rparr>
   \<and> jackpot (fst (snd (play heap5 0 (Val 2) rng0))) analyzer0 = jackpot heap5 analyzer0
   \<and> Game_results (games (fst (snd (play heap5 0 (Val 2) rng0))) 0) = Some 2"
proof -
  have res: "Game_results (games heap4 0) = Some 0" by code_simp
  have alloc: "0 < n_frames heap4" by code_simp
  have played: "fst (play heap5 0 (Val 2) rng0) = Inr ()" by code_simp
  have new: "Game_results (games (fst (snd (play heap5 0 (Val 2) rng0))) 0) = Some 2"
    by code_simp
  show ?thesis
    using analyzer_keeps_its_copy [OF init_example res alloc, of "Val 2" rng0]
      init_example res alloc played new
    by (simp add: snapshot_example)
qed

section \<open>Rolling a die\<close>




text \<open>
  C5. The code does not do what the claim says. \<open>roll\<close> has no check of the weights. On the
  die of the example whose three weights have been set to 0, the sum of the weights is 0,
  the normalisation divides each weight by it, which gives \<open>nan\<close> for every face, and the
  call ends in the \<open>ValueError\<close> with which \<open>np.random.choice\<close> rejects such probabilities:
  the division by zero is performed, and the failure is not raised by \<open>roll\<close>.
\<close>

theorem roll_all_zero_die:
  "Die_df (dies heap6 1) = [(1, 0), (2, 0), (3, 0)]
   \<and> py_sum (map snd (Die_df (dies heap6 1))) = Fin 0
   \<and> roll_p (dies heap6 1) = [np_div 0 (Fin 0), np_div 0 (Fin 0), np_div 0 (Fin 0)]
   \<and> roll_p (dies heap6 1) = [NaN, NaN, NaN]
   \<and> choice (map fst (Die_df (dies heap6 1))) 1 (roll_p (dies heap6 1)) rng0 =
       (Inl (ValueError ''probabilities contain NaN''), rng0)
   \<and> roll heap6 1 (Val 1) rng0 = (Inl (ValueError ''probabilities contain NaN''), heap6, rng0)"
proof -
  have ne: "Die_df (dies heap6 1) \<noteq> []"
    unfolding zero_die_example by simp
  have zero: "\<forall>w \<in> set (map snd (Die_df (dies heap6 1))). w = 0"
    unfolding zero_die_example by simp
  have n: "(0::int) < 1"
    by simp
  have three: "replicate (length (Die_df (dies heap6 1))) NaN = [NaN, NaN, NaN]"
    unfolding zero_die_example by simp
  have s: "py_sum (map snd (Die_df (dies heap6 1))) = Fin 0"
    by code_simp
  have q: "[np_div 0 (Fin 0), np_div 0 (Fin 0), np_div 0 (Fin 0)] = [NaN, NaN, NaN]"
    by simp
  have c: "fst (choice (map fst (Die_df (dies heap6 1))) 1 (roll_p (dies heap6 1)) rng0) =
             Inl (ValueError ''probabilities contain NaN'')"
    by code_simp
  have "snd (choice (map fst (Die_df (dies heap6 1))) 1 (roll_p (dies heap6 1)) rng0) = rng0"
    using c by (intro choice_error_rng) simp
  with c have c': "choice (map fst (Die_df (dies heap6 1))) 1 (roll_p (dies heap6 1)) rng0 =
             (Inl (ValueError ''probabilities contain NaN''), rng0)"
    by (simp add: prod_eq_iff)
  from roll_all_zero_weights [OF ne zero n, of rng0]
  have p: "roll_p (dies heap6 1) = [NaN, NaN, NaN]"
    and r: "roll heap6 1 (Val 1) rng0 =
              (Inl (ValueError ''probabilities contain NaN''), heap6, rng0)"
    unfolding three by simp_all
  show ?thesis
    using zero_die_example s p c' r unfolding q by blast
qed

section \<open>Playing a game and showing its results\<close>

text \<open>
  C6. When \<open>play\<close> with \<open>n\<close> rolls succeeds on a game with \<open>d \<ge> 1\<close> dice, \<open>n\<close> is positive and
  the game's results frame has shape \<open>(n, d)\<close>, with the row labels \<open>0, ..., n - 1\<close> and the
  column labels \<open>0, ..., d - 1\<close>; \<open>show('wide')\<close> returns a copy of it; \<open>show('narrow')\<close>
  returns a frame with the single column \<open>'Outcome'\<close> and \<open>n \<sqdot> d\<close> rows, labelled \<open>(roll, die)\<close>
  for each roll in ascending order and within a roll for each die in ascending order, and
  its outcomes are the rows of the wide frame one after the other.
\<close>

theorem play_then_show_shapes:
  assumes played: "play h gm (Val n) g = (Inr (), h', g')"
    and dice: "Game_dice (games h gm) \<noteq> []"
  shows "0 < n
         \<and> (\<exists>r. Game_results (games h' gm) = Some r
               \<and> shape (frames h' r) = (nat n, length (Game_dice (games h gm)))
               \<and> index (frames h' r) = [0..<nat n]
               \<and> columns (frames h' r) = [0..<length (Game_dice (games h gm))]
               \<and> table (frames h' r)
               \<and> (\<exists>w hw. Game_show h' gm ''wide'' = (Inr (Wide w), hw) \<and> frames hw w = frames h' r)
               \<and> (\<exists>nf. Game_show h' gm ''narrow'' = (Inr (Narrow nf), h')
                     \<and> columns nf = [''Outcome'']
                     \<and> table nf
                     \<and> length (index nf) = nat n * length (Game_dice (games h gm))
                     \<and> index nf = List.product [0..<nat n] [0..<length (Game_dice (games h gm))]
                     \<and> concat (data nf) = concat (data (frames h' r))))"
proof (cases rule: play_cases [of h gm "Val n" g])
  case (failed e g2)
  then show ?thesis using played by simp
next
  case (played k rolls g2)
  let ?d = "length (Game_dice (games h gm))"
  let ?fr = "DataFrame_of_dict rolls"
  have k: "k = n" "0 < n"
    using played(1,2) by simp_all
  from play_loop_columns [OF played(3)] obtain new where
    new: "rolls = [] @ new" "map fst new = map fst (enumerate0 (Game_dice (games h gm)))"
      "\<forall>kc \<in> set new. length (snd kc) = nat k"
    by blast
  have keys: "map fst rolls = [0..<?d]"
    using new(1,2) by (simp add: labels_enumerate0)
  then have "length rolls = ?d"
    by (metis length_map length_upt minus_nat.diff_0)
  then have ne: "rolls \<noteq> []"
    using dice by auto
  have cols: "\<forall>kc \<in> set rolls. length (snd kc) = nat n"
    using new(1,3) k by simp
  note fr = DataFrame_of_dict_table [OF ne cols]
  have h': "h' = h\<lparr>frames := (frames h)(n_frames h := ?fr),
            n_frames := Suc (n_frames h),
            games := (games h)(gm := (games h gm)\<lparr>Game_results := Some (n_frames h)\<rparr>)\<rparr>"
    using played(4) assms(1) by simp
  have res: "Game_results (games h' gm) = Some (n_frames h)"
    by (simp add: h')
  have frame: "frames h' (n_frames h) = ?fr"
    by (simp add: h')
  have wide: "\<exists>w hw. Game_show h' gm ''wide'' = (Inr (Wide w), hw) \<and> frames hw w = frames h' (n_frames h)"
    by (simp add: Game_show_def res)
  have narrow: "Game_show h' gm ''narrow'' = (Inr (Narrow (to_frame (stack ?fr) ''Outcome'')), h')"
    by (simp add: Game_show_def res frame)
  note nf = narrow_frame_of_table [OF fr(3), of "''Outcome''"]
  have "length (index (to_frame (stack ?fr) ''Outcome'')) = nat n * ?d"
    by (simp add: nf(1) fr(1,2) keys)
  then show ?thesis
    using k res frame wide narrow nf fr keys
    by (simp add: shape_def to_frame_def)
qed

theorem play_then_show_shapes_witness:
  "play heap3 0 (Val 4) rng0 = (Inr (), heap4, snd (snd (play heap3 0 (Val 4) rng0)))
   \<and> Game_dice (games heap3 0) \<noteq> []
   \<and> shape (frames heap4 0) = (4, 2)
   \<and> (\<exists>nf. Game_show heap4 0 ''narrow'' = (Inr (Narrow nf), heap4)
          \<and> length (index nf) = 8
          \<and> index nf = [(0, 0), (0, 1), (1, 0), (1, 1), (2, 0), (2, 1), (3, 0), (3, 1)]
          \<and> concat (data nf) = [1, 2, 2, 1, 1, 2, 1, 1])"
proof -
  have ne: "Game_dice (games heap3 0) \<noteq> []"
    by code_simp
  have res: "Game_results (games heap4 0) = Some 0"
    by code_simp
  from play_then_show_shapes [OF played_example ne] obtain r nf where
    r: "Game_results (games heap4 0) = Some r"
      "shape (frames heap4 r) = (nat 4, length (Game_dice (games heap3 0)))"
    and nf: "Game_show heap4 0 ''narrow'' = (Inr (Narrow nf), heap4)"
      "length (index nf) = nat 4 * length (Game_dice (games heap3 0))"
      "index nf = List.product [0..<nat 4] [0..<length (Game_dice (games heap3 0))]"
      "concat (data nf) = concat (data (frames heap4 r))"
    by blast
  have r0: "r = 0"
    using r(1) res by simp
  have 1: "(nat 4, length (Game_dice (games heap3 0))) = (4, 2)"
    by code_simp
  have 2: "nat 4 * length (Game_dice (games heap3 0)) = 8"
    by code_simp
  have 3: "List.product [0..<nat 4] [0..<length (Game_dice (games heap3 0))] =
      [(0, 0), (0, 1), (1, 0), (1, 1), (2, 0), (2, 1), (3, 0), (3, 1)]"
    by code_simp
  have 4: "concat (data (frames heap4 0)) = [1, 2, 2, 1, 1, 2, 1, 1]"
    by code_simp
  have "shape (frames heap4 0) = (4, 2)"
    using r(2) unfolding r0 1 .
  moreover have "length (index nf) = 8"
    using nf(2) unfolding 2 .
  moreover have "index nf = [(0, 0), (0, 1), (1, 0), (1, 1), (2, 0), (2, 1), (3, 0), (3, 1)]"
    using nf(3) unfolding 3 .
  moreover have "concat (data nf) = [1, 2, 2, 1, 1, 2, 1, 1]"
    using nf(4) unfolding r0 4 .
  ultimately show ?thesis
    using played_example ne nf(1) by blast
qed

end
